theory Spec2Isabelle
  imports Main
begin

section \<open>The example plugin of EnvCLI (examples/plugin/example\_plugin.py)\<close>

text \<open>
  The plugin reads one JSON document from its input stream, dispatches on the
  \<open>action\<close> field, writes one JSON document to its output stream and exits.
  The embedding follows the Python text function by function. Python values that
  come from, or go to, the JSON codec are values of the type \<open>json\<close>; a Python
  exception is a value of \<open>py_exception\<close> and a function that may raise returns
  \<open>py_exception + 'a\<close>; the diagnostic lines printed on the error stream are
  returned beside the result. The program is given twice. \<open>main\<close> starts from what
  \<open>json.load\<close> returned or raised and takes \<open>json.dump\<close> to write the response in
  full and the output stream to accept it. \<open>process\<close>, further down, starts from the
  text of the input stream, decodes it as Python's decoder does, and lets the writes
  raise; where no write raises it does what \<open>main\<close> does.
\<close>

subsection \<open>Python values\<close>

text \<open>
  A float is kept as its parts (sign, significand, binary exponent), or one of the
  special values that Python's decoder accepts. Only whether it is zero matters below.
\<close>

datatype pyfloat = Finite bool nat int | Infinity bool | NaN

text \<open>
  A \<open>dict\<close> is an association list in insertion order, each key once, and
  \<open>map_of\<close> reads it. A \<open>str\<close> is the list of the bytes of its UTF-8 encoding.
\<close>

datatype json =
    JNull
  | JBool bool
  | JInt int
  | JFloat pyfloat
  | JStr string
  | JList "json list"
  | JObj "(string \<times> json) list"

text \<open>
  The exceptions the program can meet. \<open>LoadError\<close> stands for whatever
  \<open>json.load(sys.stdin)\<close> raises (a decode error, an undecodable byte, a failed read)
  and \<open>DumpError\<close> for whatever \<open>json.dump\<close> or \<open>sys.stdout.flush\<close> raises; both
  carry the text of \<open>str(e)\<close>. \<open>AttributeError\<close> and \<open>TypeError\<close> carry the name
  of the type of the offending object.
\<close>

datatype py_exception =
    LoadError string
  | AttributeError string
  | TypeError string
  | DumpError string

fun type_name :: "json \<Rightarrow> string" where
  "type_name JNull = ''NoneType''"
| "type_name (JBool _) = ''bool''"
| "type_name (JInt _) = ''int''"
| "type_name (JFloat _) = ''float''"
| "type_name (JStr _) = ''str''"
| "type_name (JList _) = ''list''"
| "type_name (JObj _) = ''dict''"

text \<open>\<open>str(e)\<close>, in the wording of CPython 3.7 to 3.13.\<close>

fun exception_str :: "py_exception \<Rightarrow> string" where
  "exception_str (LoadError msg) = msg"
| "exception_str (AttributeError ty) = [CHR 0x27] @ ty @ [CHR 0x27] @ '' object has no attribute '' @ [CHR 0x27] @ ''get'' @ [CHR 0x27]"
| "exception_str (TypeError ty) = ''unhashable type: '' @ [CHR 0x27] @ ty @ [CHR 0x27]"
| "exception_str (DumpError msg) = msg"

text \<open>Truth value testing, as \<open>not hook_type\<close> uses it.\<close>

fun truthy :: "json \<Rightarrow> bool" where
  "truthy JNull = False"
| "truthy (JBool b) = b"
| "truthy (JInt i) = (i \<noteq> 0)"
| "truthy (JFloat (Finite _ m _)) = (m \<noteq> 0)"
| "truthy (JFloat (Infinity _)) = True"
| "truthy (JFloat NaN) = True"
| "truthy (JStr s) = (s \<noteq> [])"
| "truthy (JList xs) = (xs \<noteq> [])"
| "truthy (JObj d) = (d \<noteq> [])"

text \<open>
  \<open>obj.get(key, default)\<close>: only a \<open>dict\<close> has the method; on any other
  decoded value the attribute lookup raises.
\<close>

fun py_get :: "json \<Rightarrow> string \<Rightarrow> json \<Rightarrow> py_exception + json" where
  "py_get (JObj d) k dflt = Inr (case map_of d k of None \<Rightarrow> dflt | Some v \<Rightarrow> v)"
| "py_get v k dflt = Inl (AttributeError (type_name v))"

subsection \<open>What the program reads from its runtime\<close>

text \<open>
  \<open>time_text\<close> is \<open>str(time.time())\<close> at the one place a handler calls it;
  \<open>python_version\<close> is \<open>sys.version.split()[0]\<close>, the version number that starts
  \<open>sys.version\<close>; \<open>repr_text\<close> is the text Python's string formatting gives a
  float, a list or a dict.
\<close>

record runtime =
  time_text :: string
  python_version :: string
  repr_text :: "json \<Rightarrow> string"

fun digit_char :: "nat \<Rightarrow> char" where
  "digit_char n = char_of (48 + n)"

fun nat_str :: "nat \<Rightarrow> string" where
  "nat_str n = (if n < 10 then [digit_char n] else nat_str (n div 10) @ [digit_char (n mod 10)])"

text \<open>The text an f-string puts in place of \<open>{value}\<close>.\<close>

fun py_str :: "runtime \<Rightarrow> json \<Rightarrow> string" where
  "py_str rt JNull = ''None''"
| "py_str rt (JBool b) = (if b then ''True'' else ''False'')"
| "py_str rt (JInt i) = (if i < 0 then ''-'' @ nat_str (nat (- i)) else nat_str (nat i))"
| "py_str rt (JStr s) = s"
| "py_str rt v = repr_text rt v"

subsection \<open>The metadata provider\<close>

definition get_metadata :: json where
  "get_metadata = JObj
     [(''id'', JStr ''python-example''),
      (''name'', JStr ''Python Example Plugin''),
      (''version'', JStr ''1.0.0''),
      (''description'', JStr (''Python '' @
         [CHR 0xE5, CHR 0xA4, CHR 0x96, CHR 0xE9, CHR 0x83, CHR 0xA8,
          CHR 0xE6, CHR 0x8F, CHR 0x92, CHR 0xE4, CHR 0xBB, CHR 0xB6,
          CHR 0xE7, CHR 0xA4, CHR 0xBA, CHR 0xE4, CHR 0xBE, CHR 0x8B])),
      (''author'', JStr ''EnvCLI Team''),
      (''plugin_type'', JStr ''ExternalExecutable''),
      (''hooks'', JList [JStr ''PreCommand'', JStr ''PostCommand'', JStr ''PreRun'', JStr ''PostRun'']),
      (''extensions'', JList []),
      (''config_schema'', JNull),
      (''enabled'', JBool True),
      (''dependencies'', JList []),
      (''platforms'', JList [JStr ''Windows'', JStr ''Linux'', JStr ''MacOS'']),
      (''envcli_version'', JNull)]"

subsection \<open>The hook handlers\<close>

text \<open>
  A handler returns the lines it printed on the error stream and its HookResult,
  or the exception that \<open>context.get\<close> raised before anything was printed.
\<close>

type_synonym hook_return = "py_exception + (string list \<times> json)"

definition handle_pre_command :: "runtime \<Rightarrow> json \<Rightarrow> hook_return" where
  "handle_pre_command rt context =
     (case py_get context ''command'' (JStr ''unknown'') of
        Inl e \<Rightarrow> Inl e
      | Inr command \<Rightarrow>
          (case py_get context ''args'' (JList []) of
             Inl e \<Rightarrow> Inl e
           | Inr args \<Rightarrow>
               Inr ([''[PythonPlugin] PreCommand: '' @ py_str rt command @ '' '' @ py_str rt args],
                    JObj [(''modified_env'',
                             JObj [(''PYTHON_PLUGIN'', JStr ''active''),
                                   (''LAST_COMMAND'', command),
                                   (''COMMAND_TIME'', JStr (time_text rt))]),
                          (''plugin_data'', JObj []),
                          (''continue_execution'', JBool True),
                          (''message'', JStr (''Python plugin processed pre-command: '' @ py_str rt command))])))"

definition handle_post_command :: "runtime \<Rightarrow> json \<Rightarrow> hook_return" where
  "handle_post_command rt context =
     (case py_get context ''command'' (JStr ''unknown'') of
        Inl e \<Rightarrow> Inl e
      | Inr command \<Rightarrow>
          Inr ([''[PythonPlugin] PostCommand: '' @ py_str rt command],
               JObj [(''modified_env'', JObj []),
                     (''plugin_data'',
                        JObj [(''python_executed'', JStr ''true''),
                              (''timestamp'', JStr (time_text rt))]),
                     (''continue_execution'', JBool True),
                     (''message'', JStr (''Python plugin processed post-command: '' @ py_str rt command))]))"

definition handle_pre_run :: "runtime \<Rightarrow> json \<Rightarrow> hook_return" where
  "handle_pre_run rt context =
     (case py_get context ''command'' (JStr ''unknown'') of
        Inl e \<Rightarrow> Inl e
      | Inr command \<Rightarrow>
          Inr ([''[PythonPlugin] PreRun: '' @ py_str rt command],
               JObj [(''modified_env'',
                        JObj [(''PYTHON_RUN_MODE'', JStr ''example''),
                              (''PYTHON_VERSION'', JStr (python_version rt))]),
                     (''plugin_data'', JObj []),
                     (''continue_execution'', JBool True),
                     (''message'', JStr ''Python plugin pre-run hook'')]))"

definition handle_post_run :: "runtime \<Rightarrow> json \<Rightarrow> hook_return" where
  "handle_post_run rt context =
     (case py_get context ''command'' (JStr ''unknown'') of
        Inl e \<Rightarrow> Inl e
      | Inr command \<Rightarrow>
          Inr ([''[PythonPlugin] PostRun: '' @ py_str rt command],
               JObj [(''modified_env'', JObj []),
                     (''plugin_data'', JObj []),
                     (''continue_execution'', JBool True),
                     (''message'', JStr ''Python plugin post-run hook'')]))"

subsection \<open>The hook registry\<close>

definition handlers :: "(string \<times> (runtime \<Rightarrow> json \<Rightarrow> hook_return)) list" where
  "handlers =
     [(''PreCommand'', handle_pre_command),
      (''PostCommand'', handle_post_command),
      (''PreRun'', handle_pre_run),
      (''PostRun'', handle_post_run)]"

text \<open>
  \<open>handlers.get(hook_type)\<close>: the key is hashed first, which a list or a dict
  refuses; a key of any other type than \<open>str\<close> equals none of the four names.
\<close>

fun handlers_get :: "json \<Rightarrow> py_exception + (runtime \<Rightarrow> json \<Rightarrow> hook_return) option" where
  "handlers_get (JStr s) = Inr (map_of handlers s)"
| "handlers_get (JList xs) = Inl (TypeError ''list'')"
| "handlers_get (JObj d) = Inl (TypeError ''dict'')"
| "handlers_get v = Inr None"

definition execute_hook :: "runtime \<Rightarrow> json \<Rightarrow> json \<Rightarrow> hook_return" where
  "execute_hook rt hook_type context =
     (case handlers_get hook_type of
        Inl e \<Rightarrow> Inl e
      | Inr (Some handler) \<Rightarrow> handler rt context
      | Inr None \<Rightarrow>
          Inr ([], JObj [(''modified_env'', JObj []),
                         (''plugin_data'', JObj []),
                         (''continue_execution'', JBool True),
                         (''message'', JNull)]))"

subsection \<open>The entry point\<close>

text \<open>
  \<open>dispatch\<close> is the body of the \<open>try\<close> block of \<open>main\<close> from the decoded request
  to the response it is about to write.
\<close>

definition dispatch :: "runtime \<Rightarrow> json \<Rightarrow> py_exception + (string list \<times> json)" where
  "dispatch rt request =
     (case py_get request ''action'' JNull of
        Inl e \<Rightarrow> Inl e
      | Inr action \<Rightarrow>
          if action = JStr ''metadata'' then
            Inr ([], JObj [(''success'', JBool True), (''metadata'', get_metadata)])
          else if action = JStr ''execute_hook'' then
            (case py_get request ''hook_type'' JNull of
               Inl e \<Rightarrow> Inl e
             | Inr hook_type \<Rightarrow>
                 (case py_get request ''context'' (JObj []) of
                    Inl e \<Rightarrow> Inl e
                  | Inr context \<Rightarrow>
                      if \<not> truthy hook_type then
                        Inr ([], JObj [(''success'', JBool False), (''error'', JStr ''Missing hook_type'')])
                      else
                        (case execute_hook rt hook_type context of
                           Inl e \<Rightarrow> Inl e
                         | Inr (printed, result) \<Rightarrow>
                             Inr (printed, JObj [(''success'', JBool True), (''result'', result)]))))
          else if action = JStr ''initialize'' then
            (case py_get request ''config'' (JObj []) of
               Inl e \<Rightarrow> Inl e
             | Inr config \<Rightarrow>
                 Inr ([''[PythonPlugin] Initialized with config: '' @ py_str rt config],
                      JObj [(''success'', JBool True)]))
          else if action = JStr ''shutdown'' then
            Inr ([''[PythonPlugin] Shutdown''], JObj [(''success'', JBool True)])
          else
            Inr ([], JObj [(''success'', JBool False),
                           (''error'', JStr (''Unknown action: '' @ py_str rt action))]))"

text \<open>
  What one run of the process leaves behind: the documents written to the output
  stream, the lines written to the error stream, and the exit status.
\<close>

record outcome =
  stdout :: "json list"
  stderr :: "string list"
  exit_status :: nat

text \<open>
  \<open>main\<close>, given the result of \<open>json.load(sys.stdin)\<close>: the decoded document
  or the exception raised. \<open>try_block\<close> is the \<open>try\<close> block up to the response
  that \<open>json.dump\<close> writes; \<open>main\<close> adds the \<open>except\<close> clause and the exit.
\<close>

definition try_block :: "runtime \<Rightarrow> py_exception + json \<Rightarrow> py_exception + (string list \<times> json)" where
  "try_block rt loaded =
     (case loaded of Inl e \<Rightarrow> Inl e | Inr request \<Rightarrow> dispatch rt request)"

definition main :: "runtime \<Rightarrow> py_exception + json \<Rightarrow> outcome" where
  "main rt loaded =
     (case try_block rt loaded of
        Inr (printed, response) \<Rightarrow>
          \<lparr>stdout = [response], stderr = printed, exit_status = 0\<rparr>
      | Inl e \<Rightarrow>
          \<lparr>stdout = [JObj [(''success'', JBool False), (''error'', JStr (exception_str e))]],
           stderr = [],
           exit_status = 1\<rparr>)"

subsection \<open>Well-formed responses and a sample runtime\<close>

text \<open>
  The invariant of a response: it is an object whose \<open>success\<close> field is a boolean,
  that has an \<open>error\<close> field exactly when \<open>success\<close> is false, and that does not
  have both a \<open>metadata\<close> and a \<open>result\<close> field.
\<close>

fun response_invariant :: "json \<Rightarrow> bool" where
  "response_invariant (JObj r) =
     (map_of r ''success'' \<in> {Some (JBool True), Some (JBool False)} \<and>
      (map_of r ''success'' = Some (JBool False)) = (map_of r ''error'' \<noteq> None) \<and>
      \<not> (map_of r ''metadata'' \<noteq> None \<and> map_of r ''result'' \<noteq> None))"
| "response_invariant v = False"

text \<open>A runtime to run the program on concrete requests.\<close>

definition example_runtime :: runtime where
  "example_runtime =
     \<lparr>time_text = ''1700000000.25'', python_version = ''3.11.4'', repr_text = (\<lambda>v. ''[]'')\<rparr>"

subsection \<open>The decoder\<close>

text \<open>
  \<open>json.load(sys.stdin)\<close> reads the whole stream and decodes it with the default
  decoder of Python's \<open>json\<close> module. The functions below follow that decoder's
  grammar: JSON as in RFC 8259, in strict mode (no control character inside a
  string), with the three constants \<open>NaN\<close>, \<open>Infinity\<close> and \<open>-Infinity\<close> accepted
  as numbers. Each function takes the text that is left and returns what it read
  with the text after it, or \<open>None\<close> where the decoder raises.
\<close>

definition is_ws :: "char \<Rightarrow> bool" where
  "is_ws c = (c = CHR '' '' \<or> c = CHR 0x09 \<or> c = CHR 0x0A \<or> c = CHR 0x0D)"

definition skip_ws :: "string \<Rightarrow> string" where
  "skip_ws s = dropWhile is_ws s"

definition is_digit :: "char \<Rightarrow> bool" where
  "is_digit c = (48 \<le> (of_char c :: nat) \<and> (of_char c :: nat) \<le> 57)"

text \<open>
  A number literal is an optional minus sign, the integer part (\<open>0\<close>, or a digit
  from 1 to 9 and any digits), an optional fraction (a point and at least one
  digit) and an optional exponent (\<open>e\<close> or \<open>E\<close>, an optional sign, at least one
  digit). A fraction or an exponent that lacks its digits is left unread.
\<close>

definition lex_integer :: "string \<Rightarrow> (string \<times> string) option" where
  "lex_integer s =
     (case s of
        [] \<Rightarrow> None
      | d # r \<Rightarrow>
          if d = CHR ''0'' then Some ([d], r)
          else if is_digit d then Some (d # takeWhile is_digit r, dropWhile is_digit r)
          else None)"

definition lex_fraction :: "string \<Rightarrow> string \<times> string" where
  "lex_fraction s =
     (case s of
        [] \<Rightarrow> ([], s)
      | p # r \<Rightarrow>
          (case r of
             [] \<Rightarrow> ([], s)
           | d # _ \<Rightarrow>
               if p = CHR ''.'' \<and> is_digit d
               then (p # takeWhile is_digit r, dropWhile is_digit r)
               else ([], s)))"

definition lex_exponent :: "string \<Rightarrow> string \<times> string" where
  "lex_exponent s =
     (case s of
        [] \<Rightarrow> ([], s)
      | e # r \<Rightarrow>
          if e = CHR ''e'' \<or> e = CHR ''E'' then
            (case r of
               [] \<Rightarrow> ([], s)
             | g # r1 \<Rightarrow>
                 if g = CHR ''+'' \<or> g = CHR ''-'' then
                   (case r1 of
                      [] \<Rightarrow> ([], s)
                    | d # _ \<Rightarrow>
                        if is_digit d
                        then (e # g # takeWhile is_digit r1, dropWhile is_digit r1)
                        else ([], s))
                 else if is_digit g then (e # takeWhile is_digit r, dropWhile is_digit r)
                 else ([], s))
          else ([], s))"

text \<open>
  \<open>lex_number\<close> returns the text of the literal, whether it is a float (it has a
  fraction or an exponent), and the rest.
\<close>

definition lex_number :: "string \<Rightarrow> (string \<times> bool \<times> string) option" where
  "lex_number s =
     (let (sign, s0) = (case s of
                          [] \<Rightarrow> ([], s)
                        | m # r \<Rightarrow> if m = CHR ''-'' then ([m], r) else ([], s))
      in case lex_integer s0 of
           None \<Rightarrow> None
         | Some (digits, s1) \<Rightarrow>
             (let (fraction, s2) = lex_fraction s1;
                  (exponent, s3) = lex_exponent s2
              in Some (sign @ digits @ fraction @ exponent, fraction \<noteq> [] \<or> exponent \<noteq> [], s3)))"

text \<open>\<open>int(literal)\<close> for the literal of an integer.\<close>

definition int_of_literal :: "string \<Rightarrow> int" where
  "int_of_literal s =
     (case s of
        [] \<Rightarrow> 0
      | m # r \<Rightarrow>
          if m = CHR ''-'' then - int (foldl (\<lambda>n c. 10 * n + (of_char c - 48)) 0 r)
          else int (foldl (\<lambda>n c. 10 * n + (of_char c - 48)) 0 s))"

text \<open>
  Strings. A \<open>str\<close> is kept as the bytes of its UTF-8 encoding, so a character
  that an escape \<open>\uXXXX\<close> names is put in as its encoding; a surrogate that
  stands alone, which a Python \<open>str\<close> can hold, is encoded in three bytes like
  any other character below \<open>0x10000\<close>.
\<close>

definition utf8 :: "nat \<Rightarrow> string" where
  "utf8 cp =
     (if cp < 0x80 then [char_of cp]
      else if cp < 0x800 then [char_of (0xC0 + cp div 64), char_of (0x80 + cp mod 64)]
      else if cp < 0x10000 then
        [char_of (0xE0 + cp div 4096), char_of (0x80 + cp div 64 mod 64), char_of (0x80 + cp mod 64)]
      else
        [char_of (0xF0 + cp div 262144), char_of (0x80 + cp div 4096 mod 64),
         char_of (0x80 + cp div 64 mod 64), char_of (0x80 + cp mod 64)])"

definition hex_value :: "char \<Rightarrow> nat option" where
  "hex_value c =
     (let n = (of_char c :: nat)
      in if 48 \<le> n \<and> n \<le> 57 then Some (n - 48)
         else if 65 \<le> n \<and> n \<le> 70 then Some (n - 55)
         else if 97 \<le> n \<and> n \<le> 102 then Some (n - 87)
         else None)"

definition hex4 :: "char \<Rightarrow> char \<Rightarrow> char \<Rightarrow> char \<Rightarrow> nat option" where
  "hex4 a b c d =
     (case (hex_value a, hex_value b, hex_value c, hex_value d) of
        (Some x, Some y, Some z, Some w) \<Rightarrow> Some (4096 * x + 256 * y + 16 * z + w)
      | _ \<Rightarrow> None)"

definition simple_escape :: "char \<Rightarrow> char option" where
  "simple_escape e =
     (if e = CHR 0x22 \<or> e = CHR 0x5C \<or> e = CHR ''/'' then Some e
      else if e = CHR ''b'' then Some (CHR 0x08)
      else if e = CHR ''f'' then Some (CHR 0x0C)
      else if e = CHR ''n'' then Some (CHR 0x0A)
      else if e = CHR ''r'' then Some (CHR 0x0D)
      else if e = CHR ''t'' then Some (CHR 0x09)
      else None)"

text \<open>
  An escape, read after the backslash: the characters it stands for and how many
  characters of the text it takes. \<open>\uXXXX\<close> takes four hexadecimal digits; a high
  surrogate followed by the escape of a low surrogate is one character.
\<close>

definition hex4_at :: "string \<Rightarrow> nat option" where
  "hex4_at s = (case s of a # b # c # d # _ \<Rightarrow> hex4 a b c d | _ \<Rightarrow> None)"

definition scan_escape :: "string \<Rightarrow> (string \<times> nat) option" where
  "scan_escape r =
     (case r of
        [] \<Rightarrow> None
      | e # r1 \<Rightarrow>
          if e = CHR ''u'' then
            (case hex4_at r1 of
               None \<Rightarrow> None
             | Some cp \<Rightarrow>
                 if 0xD800 \<le> cp \<and> cp \<le> 0xDBFF \<and> take 2 (drop 4 r1) = [CHR 0x5C, CHR ''u''] then
                   (case hex4_at (drop 6 r1) of
                      None \<Rightarrow> None
                    | Some low \<Rightarrow>
                        if 0xDC00 \<le> low \<and> low \<le> 0xDFFF
                        then Some (utf8 (0x10000 + (cp - 0xD800) * 1024 + (low - 0xDC00)), 11)
                        else Some (utf8 cp, 5))
                 else Some (utf8 cp, 5))
          else
            (case simple_escape e of
               None \<Rightarrow> None
             | Some ch \<Rightarrow> Some ([ch], 1)))"

text \<open>
  \<open>scan_string\<close> starts after the opening quote and returns the content of the
  string and the text after the closing quote.
\<close>

fun scan_string :: "string \<Rightarrow> (string \<times> string) option" where
  "scan_string [] = None"
| "scan_string (c # r) =
     (if c = CHR 0x22 then Some ([], r)
      else if c = CHR 0x5C then
        (case scan_escape r of
           None \<Rightarrow> None
         | Some (chars, n) \<Rightarrow>
             (case scan_string (drop n r) of
                None \<Rightarrow> None
              | Some (t, rest) \<Rightarrow> Some (chars @ t, rest)))
      else if (of_char c :: nat) < 32 then None
      else
        (case scan_string r of
           None \<Rightarrow> None
         | Some (t, rest) \<Rightarrow> Some (c # t, rest)))"

text \<open>
  Storing a key in a \<open>dict\<close>: a key that is there keeps its place and takes the
  new value, a new key goes to the end.
\<close>

fun dict_set :: "(string \<times> json) list \<Rightarrow> string \<Rightarrow> json \<Rightarrow> (string \<times> json) list" where
  "dict_set [] k v = [(k, v)]"
| "dict_set (p # ps) k v = (if fst p = k then (k, v) # ps else p # dict_set ps k v)"

definition make_dict :: "(string \<times> json) list \<Rightarrow> json" where
  "make_dict members = JObj (foldl (\<lambda>d (k, v). dict_set d k v) [] members)"

text \<open>
  \<open>scan_value\<close> reads one value at the start of the text; \<open>scan_elements\<close> reads
  the elements of an array up to its closing bracket and \<open>scan_members\<close> the
  members of an object up to its closing brace, both starting at the first one.
  The argument is what \<open>float(literal)\<close> gives. The comparisons of lengths are
  there for the definition to be accepted; they always hold where they are made,
  as is proved below: what is left after a value is shorter than the text the
  value was read from.
\<close>

function scan_value :: "(string \<Rightarrow> pyfloat) \<Rightarrow> string \<Rightarrow> (json \<times> string) option"
  and scan_elements :: "(string \<Rightarrow> pyfloat) \<Rightarrow> string \<Rightarrow> (json list \<times> string) option"
  and scan_members :: "(string \<Rightarrow> pyfloat) \<Rightarrow> string \<Rightarrow> ((string \<times> json) list \<times> string) option"
where
  "scan_value fl s =
     (case s of
        [] \<Rightarrow> None
      | c # r \<Rightarrow>
          if c = CHR 0x22 then
            (case scan_string r of
               None \<Rightarrow> None
             | Some (t, rest) \<Rightarrow> Some (JStr t, rest))
          else if c = CHR ''{'' then
            (case skip_ws r of
               [] \<Rightarrow> None
             | d # r1 \<Rightarrow>
                 if d = CHR ''}'' then Some (JObj [], r1)
                 else
                   (case scan_members fl (skip_ws r) of
                      None \<Rightarrow> None
                    | Some (members, rest) \<Rightarrow> Some (make_dict members, rest)))
          else if c = CHR ''['' then
            (case skip_ws r of
               [] \<Rightarrow> None
             | d # r1 \<Rightarrow>
                 if d = CHR '']'' then Some (JList [], r1)
                 else
                   (case scan_elements fl (skip_ws r) of
                      None \<Rightarrow> None
                    | Some (elements, rest) \<Rightarrow> Some (JList elements, rest)))
          else if take 4 s = ''null'' then Some (JNull, drop 4 s)
          else if take 4 s = ''true'' then Some (JBool True, drop 4 s)
          else if take 5 s = ''false'' then Some (JBool False, drop 5 s)
          else if take 3 s = ''NaN'' then Some (JFloat NaN, drop 3 s)
          else if take 8 s = ''Infinity'' then Some (JFloat (Infinity False), drop 8 s)
          else if take 9 s = ''-Infinity'' then Some (JFloat (Infinity True), drop 9 s)
          else
            (case lex_number s of
               None \<Rightarrow> None
             | Some (literal, is_float, rest) \<Rightarrow>
                 if is_float then Some (JFloat (fl literal), rest)
                 else Some (JInt (int_of_literal literal), rest)))"
| "scan_elements fl s =
     (case scan_value fl s of
        None \<Rightarrow> None
      | Some (v, rest) \<Rightarrow>
          (case skip_ws rest of
             [] \<Rightarrow> None
           | d # rest1 \<Rightarrow>
               if d = CHR '']'' then Some ([v], rest1)
               else if d = CHR '','' \<and> length rest1 < length s then
                 (case scan_elements fl (skip_ws rest1) of
                    None \<Rightarrow> None
                  | Some (vs, rest2) \<Rightarrow> Some (v # vs, rest2))
               else None))"
| "scan_members fl s =
     (case s of
        [] \<Rightarrow> None
      | q # r \<Rightarrow>
          if q \<noteq> CHR 0x22 then None
          else
            (case scan_string r of
               None \<Rightarrow> None
             | Some (key, rest) \<Rightarrow>
                 (case skip_ws rest of
                    [] \<Rightarrow> None
                  | colon # rest1 \<Rightarrow>
                      if colon = CHR '':'' \<and> length rest1 < length s then
                        (case scan_value fl (skip_ws rest1) of
                           None \<Rightarrow> None
                         | Some (v, rest2) \<Rightarrow>
                             (case skip_ws rest2 of
                                [] \<Rightarrow> None
                              | d # rest3 \<Rightarrow>
                                  if d = CHR ''}'' then Some ([(key, v)], rest3)
                                  else if d = CHR '','' \<and> length rest3 < length s then
                                    (case scan_members fl (skip_ws rest3) of
                                       None \<Rightarrow> None
                                     | Some (ms, rest4) \<Rightarrow> Some ((key, v) # ms, rest4))
                                  else None))
                      else None)))"
  by pat_completeness auto
termination
  apply (relation "measure (\<lambda>x. case x of
                   Inl (fl, s) \<Rightarrow> 2 * length s
                 | Inr (Inl (fl, s)) \<Rightarrow> 2 * length s + 1
                 | Inr (Inr (fl, s)) \<Rightarrow> 2 * length s + 1)")
  apply (auto simp: skip_ws_def)
  subgoal for r d r1 using length_dropWhile_le [of is_ws r] by simp
  subgoal for r d r1 using length_dropWhile_le [of is_ws r] by simp
  subgoal for fl s v rest rest1 using length_dropWhile_le [of is_ws rest1] by simp
  subgoal for r key rest rest1 using length_dropWhile_le [of is_ws rest1] by simp
  subgoal for fl r key rest rest1 v rest2 rest3 using length_dropWhile_le [of is_ws rest3] by simp
  done

declare scan_value.simps [simp del] scan_elements.simps [simp del] scan_members.simps [simp del]

text \<open>
  The whole text is one value with whitespace around it. \<open>python_json\<close> is the
  document that the decoder's grammar reads from a text, if any.
\<close>

definition python_json :: "(string \<Rightarrow> pyfloat) \<Rightarrow> string \<Rightarrow> json option" where
  "python_json fl text =
     (case scan_value fl (skip_ws text) of
        None \<Rightarrow> None
      | Some (v, rest) \<Rightarrow> if skip_ws rest = [] then Some v else None)"

subsection \<open>What the codec takes from its platform\<close>

text \<open>
  \<open>float_of_text\<close> is \<open>float(literal)\<close>. \<open>load_gives_up\<close> says of a text that
  \<open>json.load\<close> raises on it for another reason than its grammar: nesting beyond
  the recursion limit, an integer with more digits than the interpreter converts.
  \<open>load_error_text\<close> is \<open>str(e)\<close> of the exception \<open>json.load\<close> raises on a text.
  \<open>dump_raises\<close> says of a document whether \<open>json.dump(document, sys.stdout)\<close>
  followed by \<open>sys.stdout.flush()\<close> raises, and what.
\<close>

record platform =
  float_of_text :: "string \<Rightarrow> pyfloat"
  load_gives_up :: "string \<Rightarrow> bool"
  load_error_text :: "string \<Rightarrow> string"
  dump_raises :: "json \<Rightarrow> py_exception option"

definition json_load :: "platform \<Rightarrow> string \<Rightarrow> py_exception + json" where
  "json_load pf text =
     (if load_gives_up pf text then Inl (LoadError (load_error_text pf text))
      else
        (case python_json (float_of_text pf) text of
           None \<Rightarrow> Inl (LoadError (load_error_text pf text))
         | Some request \<Rightarrow> Inr request))"

subsection \<open>The process, from the input stream to the exit\<close>

text \<open>
  What reached the output stream: a document written in full, or the attempt to
  write one that raised, of which an unknown part of the text, possibly none, went
  out.
\<close>

datatype written = Whole json | Broken json

text \<open>
  How the process ends: by leaving \<open>main\<close> or by \<open>sys.exit\<close>, with an exit status,
  or by an exception that nothing handles. The interpreter then prints a traceback,
  which is not kept among the diagnostics, and exits with a status other than 0.
\<close>

datatype ending = Exited nat | Unhandled py_exception

record process_outcome =
  delivered :: "written list"
  diagnostics :: "string list"
  ending :: ending

text \<open>
  The \<open>except\<close> clause of \<open>main\<close>: it writes the error response after what was
  delivered before, and calls \<open>sys.exit(1)\<close> unless its own write raises.
\<close>

definition except_clause :: "platform \<Rightarrow> written list \<Rightarrow> string list \<Rightarrow> py_exception \<Rightarrow> process_outcome" where
  "except_clause pf earlier printed e =
     (let error_response = JObj [(''success'', JBool False), (''error'', JStr (exception_str e))]
      in case dump_raises pf error_response of
           None \<Rightarrow>
             \<lparr>delivered = earlier @ [Whole error_response], diagnostics = printed, ending = Exited 1\<rparr>
         | Some e' \<Rightarrow>
             \<lparr>delivered = earlier @ [Broken error_response], diagnostics = printed,
              ending = Unhandled e'\<rparr>)"

text \<open>
  \<open>main\<close> on the text of the input stream, with \<open>json.load\<close>, \<open>json.dump\<close> and
  \<open>flush\<close> inside the \<open>try\<close> block as the source has them.
\<close>

definition process :: "platform \<Rightarrow> runtime \<Rightarrow> string \<Rightarrow> process_outcome" where
  "process pf rt text =
     (case try_block rt (json_load pf text) of
        Inl e \<Rightarrow> except_clause pf [] [] e
      | Inr (printed, response) \<Rightarrow>
          (case dump_raises pf response of
             None \<Rightarrow> \<lparr>delivered = [Whole response], diagnostics = printed, ending = Exited 0\<rparr>
           | Some e \<Rightarrow> except_clause pf [Broken response] printed e))"

subsection \<open>JSON documents\<close>

text \<open>
  The grammar of RFC 8259, as a recogniser: a JSON text is one value with
  whitespace around it; a value is \<open>false\<close>, \<open>null\<close>, \<open>true\<close>, an object, an array,
  a number or a string. Each function returns the text after what it recognised.
\<close>

function rfc_value :: "string \<Rightarrow> string option"
  and rfc_elements :: "string \<Rightarrow> string option"
  and rfc_members :: "string \<Rightarrow> string option"
where
  "rfc_value s =
     (case s of
        [] \<Rightarrow> None
      | c # r \<Rightarrow>
          if c = CHR 0x22 then map_option snd (scan_string r)
          else if c = CHR ''{'' then
            (case skip_ws r of
               [] \<Rightarrow> None
             | d # r1 \<Rightarrow> if d = CHR ''}'' then Some r1 else rfc_members (skip_ws r))
          else if c = CHR ''['' then
            (case skip_ws r of
               [] \<Rightarrow> None
             | d # r1 \<Rightarrow> if d = CHR '']'' then Some r1 else rfc_elements (skip_ws r))
          else if take 5 s = ''false'' then Some (drop 5 s)
          else if take 4 s = ''null'' then Some (drop 4 s)
          else if take 4 s = ''true'' then Some (drop 4 s)
          else map_option (\<lambda>(literal, is_float, rest). rest) (lex_number s))"
| "rfc_elements s =
     (case rfc_value s of
        None \<Rightarrow> None
      | Some rest \<Rightarrow>
          (case skip_ws rest of
             [] \<Rightarrow> None
           | d # rest1 \<Rightarrow>
               if d = CHR '']'' then Some rest1
               else if d = CHR '','' \<and> length rest1 < length s then rfc_elements (skip_ws rest1)
               else None))"
| "rfc_members s =
     (case s of
        [] \<Rightarrow> None
      | q # r \<Rightarrow>
          if q \<noteq> CHR 0x22 then None
          else
            (case scan_string r of
               None \<Rightarrow> None
             | Some (key, rest) \<Rightarrow>
                 (case skip_ws rest of
                    [] \<Rightarrow> None
                  | colon # rest1 \<Rightarrow>
                      if colon = CHR '':'' \<and> length rest1 < length s then
                        (case rfc_value (skip_ws rest1) of
                           None \<Rightarrow> None
                         | Some rest2 \<Rightarrow>
                             (case skip_ws rest2 of
                                [] \<Rightarrow> None
                              | d # rest3 \<Rightarrow>
                                  if d = CHR ''}'' then Some rest3
                                  else if d = CHR '','' \<and> length rest3 < length s
                                  then rfc_members (skip_ws rest3)
                                  else None))
                      else None)))"
  by pat_completeness auto
termination
  apply (relation "measure (\<lambda>x. case x of
                   Inl s \<Rightarrow> 2 * length s
                 | Inr (Inl s) \<Rightarrow> 2 * length s + 1
                 | Inr (Inr s) \<Rightarrow> 2 * length s + 1)")
  apply (auto simp: skip_ws_def)
  subgoal for r d r1 using length_dropWhile_le [of is_ws r] by simp
  subgoal for r d r1 using length_dropWhile_le [of is_ws r] by simp
  subgoal for s rest rest1 using length_dropWhile_le [of is_ws rest1] by simp
  subgoal for r key rest rest1 using length_dropWhile_le [of is_ws rest1] by simp
  subgoal for r key rest rest1 rest2 rest3 using length_dropWhile_le [of is_ws rest3] by simp
  done

declare rfc_value.simps [simp del] rfc_elements.simps [simp del] rfc_members.simps [simp del]


subsection \<open>Sample platforms\<close>




section \<open>Properties\<close>

subsection \<open>The decoder consumes what it reads\<close>

lemma scan_escape_taken:
  "scan_escape r = Some (chars, n) \<Longrightarrow> 0 < n"
  by (auto simp: scan_escape_def split: list.splits if_splits option.splits)

lemma scan_string_shorter:
  "scan_string s = Some (t, rest) \<Longrightarrow> length rest < length s"
proof (induction s arbitrary: t rest rule: scan_string.induct)
  case 1
  then show ?case by simp
next
  case (2 c r)
  show ?case
  proof (cases "c = CHR 0x22")
    case True
    with "2.prems" show ?thesis by simp
  next
    case quote: False
    show ?thesis
    proof (cases "c = CHR 0x5C")
      case True
      with quote "2.prems" obtain chars n t' where
        esc: "scan_escape r = Some (chars, n)" and run: "scan_string (drop n r) = Some (t', rest)"
        by (auto split: option.splits prod.splits)
      from "2.IH"(1) [OF quote True esc refl run] have "length rest < length (drop n r)" .
      then show ?thesis by simp
    next
      case False
      with quote "2.prems" obtain t' where run: "scan_string r = Some (t', rest)"
        and plain: "\<not> (of_char c :: nat) < 32"
        by (auto split: option.splits prod.splits if_splits)
      from "2.IH"(2) [OF quote False plain run] show ?thesis by simp
    qed
  qed
qed

lemma lex_number_shorter:
  assumes "lex_number s = Some (literal, is_float, rest)"
  shows "length rest < length s"
proof -
  have int_part: "lex_integer a = Some (ds, b) \<Longrightarrow> length b < length a" for a ds b
    using length_dropWhile_le [of is_digit "tl a"]
    by (cases a) (auto simp: lex_integer_def split: if_splits)
  have frac: "lex_fraction a = (f, b) \<Longrightarrow> length b \<le> length a" for a f b
    using length_dropWhile_le [of is_digit "tl a"]
    by (cases a; cases "tl a") (auto simp: lex_fraction_def split: if_splits)
  have expo: "lex_exponent a = (x, b) \<Longrightarrow> length b \<le> length a" for a x b
    using length_dropWhile_le [of is_digit "tl a"] length_dropWhile_le [of is_digit "tl (tl a)"]
    by (cases a; cases "tl a"; cases "tl (tl a)") (auto simp: lex_exponent_def split: if_splits)
  define s0 where "s0 = (case s of [] \<Rightarrow> s | m # r \<Rightarrow> if m = CHR ''-'' then r else s)"
  have s0: "length s0 \<le> length s"
    by (cases s) (simp_all add: s0_def)
  from assms obtain ds s1 where i: "lex_integer s0 = Some (ds, s1)"
    and tail: "lex_exponent (snd (lex_fraction s1)) = (fst (lex_exponent (snd (lex_fraction s1))), rest)"
    by (cases s) (auto simp: lex_number_def s0_def Let_def split: if_splits option.splits prod.splits)
  have fr: "lex_fraction s1 = (fst (lex_fraction s1), snd (lex_fraction s1))" by simp
  from int_part [OF i] frac [OF fr] expo [OF tail] s0 show ?thesis by simp
qed

lemma skip_ws_length: "length (skip_ws s) \<le> length s"
  by (simp add: skip_ws_def length_dropWhile_le)

lemma skip_ws_Cons: "skip_ws s = d # r \<Longrightarrow> length r < length s"
  using skip_ws_length [of s] by simp


lemma scan_shorter:
  shows "scan_value fl s = Some (v, rest) \<Longrightarrow> length rest < length s"
    and "scan_elements fl s = Some (vs, rest1) \<Longrightarrow> length rest1 < length s"
    and "scan_members fl s = Some (ms, rest2) \<Longrightarrow> length rest2 < length s"
proof (induction fl s and fl s and fl s arbitrary: v rest and vs rest1 and ms rest2
       rule: scan_value_scan_elements_scan_members.induct)
  case (1 fl s)
  note given = "1.prems" [unfolded scan_value.simps [of fl s]]
  from given obtain c r where s: "s = c # r" by (cases s) auto
  consider (str) "c = CHR 0x22"
    | (obj) "c \<noteq> CHR 0x22" "c = CHR ''{''"
    | (arr) "c \<noteq> CHR 0x22" "c \<noteq> CHR ''{''" "c = CHR ''[''"
    | (other) "c \<noteq> CHR 0x22" "c \<noteq> CHR ''{''" "c \<noteq> CHR ''[''"
    by blast
  then show ?case
  proof cases
    case str
    with given s obtain t where "scan_string r = Some (t, rest)"
      by (auto split: option.splits prod.splits)
    from scan_string_shorter [OF this] s show ?thesis by simp
  next
    case obj
    with given s obtain d r1 where ws: "skip_ws r = d # r1"
      by (cases "skip_ws r") auto
    show ?thesis
    proof (cases "d = CHR ''}''")
      case True
      with given s obj ws have "rest = r1" by simp
      with skip_ws_Cons [OF ws] s show ?thesis by simp
    next
      case False
      with given s obj ws obtain members where run: "scan_members fl (skip_ws r) = Some (members, rest)"
        by (auto split: option.splits prod.splits)
      from "1.IH"(1) [OF s obj ws False run] skip_ws_length [of r] s show ?thesis by simp
    qed
  next
    case arr
    with given s obtain d r1 where ws: "skip_ws r = d # r1"
      by (cases "skip_ws r") auto
    show ?thesis
    proof (cases "d = CHR '']''")
      case True
      with given s arr ws have "rest = r1" by simp
      with skip_ws_Cons [OF ws] s show ?thesis by simp
    next
      case False
      with given s arr ws obtain elements where run: "scan_elements fl (skip_ws r) = Some (elements, rest)"
        by (auto split: option.splits prod.splits)
      from "1.IH"(2) [OF s arr ws False run] skip_ws_length [of r] s show ?thesis by simp
    qed
  next
    case other
    with given s show ?thesis
      by (auto split: option.splits prod.splits if_splits dest: lex_number_shorter)
  qed
next
  case (2 fl s)
  note given = "2.prems" [unfolded scan_elements.simps [of fl s]]
  from given obtain v rest where first: "scan_value fl s = Some (v, rest)"
    by (auto split: option.splits prod.splits)
  from "2.IH"(1) [OF first] have shorter: "length rest < length s" .
  from given first obtain d r1 where ws: "skip_ws rest = d # r1"
    by (cases "skip_ws rest") auto
  from skip_ws_Cons [OF ws] shorter have r1: "length r1 < length s" by simp
  show ?case
  proof (cases "d = CHR '']''")
    case True
    with given first ws have "rest1 = r1" by simp
    with r1 show ?thesis by simp
  next
    case False
    with given first ws r1 obtain more where comma: "d = CHR '',''"
      and run: "scan_elements fl (skip_ws r1) = Some (more, rest1)"
      by (auto split: option.splits prod.splits if_splits)
    from comma r1 have guard: "d = CHR '','' \<and> length r1 < length s" by simp
    from "2.IH"(2) [OF first refl ws False guard run]
    have "length rest1 < length (skip_ws r1)" .
    with skip_ws_length [of r1] r1 show ?thesis by simp
  qed
next
  case (3 fl s)
  note given = "3.prems" [unfolded scan_members.simps [of fl s]]
  from given obtain q r where s: "s = q # r" by (cases s) auto
  with given have q: "\<not> q \<noteq> CHR 0x22" by (auto split: if_splits)
  from given s q obtain key rest where key: "scan_string r = Some (key, rest)"
    by (auto split: option.splits prod.splits)
  from scan_string_shorter [OF key] s have rest: "length rest < length s" by simp
  from given s q key obtain colon r1 where ws: "skip_ws rest = colon # r1"
    by (cases "skip_ws rest") auto
  from skip_ws_Cons [OF ws] rest have r1: "length r1 < length s" by simp
  from given s q key ws r1 obtain v r2 where colon: "colon = CHR '':''"
    and val: "scan_value fl (skip_ws r1) = Some (v, r2)"
    by (auto split: option.splits prod.splits if_splits)
  from colon r1 have guard: "colon = CHR '':'' \<and> length r1 < length s" by simp
  from "3.IH"(1) [OF s q key refl ws guard val] skip_ws_length [of r1] r1
  have r2: "length r2 < length s" by simp
  from given s q key ws guard val obtain d r3 where ws2: "skip_ws r2 = d # r3"
    by (cases "skip_ws r2") auto
  from skip_ws_Cons [OF ws2] r2 have r3: "length r3 < length s" by simp
  show ?case
  proof (cases "d = CHR ''}''")
    case True
    with given s q key ws guard val ws2 have "rest2 = r3" by simp
    with r3 show ?thesis by simp
  next
    case False
    with given s q key ws guard val ws2 r3 obtain more where comma: "d = CHR '',''"
      and run: "scan_members fl (skip_ws r3) = Some (more, rest2)"
      by (auto split: option.splits prod.splits if_splits)
    from comma r3 have guard2: "d = CHR '','' \<and> length r3 < length s" by simp
    from "3.IH"(2) [OF s q key refl ws guard val refl ws2 False guard2 run]
    have "length rest2 < length (skip_ws r3)" .
    with skip_ws_length [of r3] r3 show ?thesis by simp
  qed
qed

text \<open>
  So the comparisons of lengths in \<open>scan_elements\<close> and \<open>scan_members\<close> always
  hold where they are made, and the two functions satisfy the equations without
  them.
\<close>

lemma scan_elements_equation:
  "scan_elements fl s =
     (case scan_value fl s of
        None \<Rightarrow> None
      | Some (v, rest) \<Rightarrow>
          (case skip_ws rest of
             [] \<Rightarrow> None
           | d # rest1 \<Rightarrow>
               if d = CHR '']'' then Some ([v], rest1)
               else if d = CHR '','' then
                 (case scan_elements fl (skip_ws rest1) of
                    None \<Rightarrow> None
                  | Some (vs, rest2) \<Rightarrow> Some (v # vs, rest2))
               else None))"
proof (cases "scan_value fl s")
  case None
  then show ?thesis by (simp add: scan_elements.simps [of fl s])
next
  case (Some found)
  obtain v rest where found: "found = (v, rest)" by (cases found)
  from scan_shorter(1) [of fl s v rest] Some found have shorter: "length rest < length s" by simp
  show ?thesis
  proof (cases "skip_ws rest")
    case Nil
    with Some found show ?thesis by (simp add: scan_elements.simps [of fl s])
  next
    case (Cons d rest1)
    from skip_ws_Cons [OF Cons] shorter have "length rest1 < length s" by simp
    with Some found Cons show ?thesis by (simp add: scan_elements.simps [of fl s])
  qed
qed

lemma scan_members_equation:
  "scan_members fl s =
     (case s of
        [] \<Rightarrow> None
      | q # r \<Rightarrow>
          if q \<noteq> CHR 0x22 then None
          else
            (case scan_string r of
               None \<Rightarrow> None
             | Some (key, rest) \<Rightarrow>
                 (case skip_ws rest of
                    [] \<Rightarrow> None
                  | colon # rest1 \<Rightarrow>
                      if colon = CHR '':'' then
                        (case scan_value fl (skip_ws rest1) of
                           None \<Rightarrow> None
                         | Some (v, rest2) \<Rightarrow>
                             (case skip_ws rest2 of
                                [] \<Rightarrow> None
                              | d # rest3 \<Rightarrow>
                                  if d = CHR ''}'' then Some ([(key, v)], rest3)
                                  else if d = CHR '','' then
                                    (case scan_members fl (skip_ws rest3) of
                                       None \<Rightarrow> None
                                     | Some (ms, rest4) \<Rightarrow> Some ((key, v) # ms, rest4))
                                  else None))
                      else None)))"
proof (cases s)
  case Nil
  then show ?thesis by (subst scan_members.simps) simp
next
  case (Cons q r)
  show ?thesis
  proof (cases "scan_string r")
    case None
    with Cons show ?thesis by (subst scan_members.simps) simp
  next
    case (Some found)
    obtain key rest where found: "found = (key, rest)" by (cases found)
    from scan_string_shorter [of r key rest] Some found Cons
    have rest: "length rest < length s" by simp
    show ?thesis
    proof (cases "skip_ws rest")
      case Nil
      with Cons Some found show ?thesis by (subst scan_members.simps) simp
    next
      case colon: (Cons colon rest1)
      from skip_ws_Cons [OF colon] rest have rest1: "length rest1 < length s" by simp
      show ?thesis
      proof (cases "scan_value fl (skip_ws rest1)")
        case None
        with Cons Some found colon rest1 show ?thesis
          by (subst scan_members.simps) simp
      next
        case val: (Some found2)
        obtain v rest2 where found2: "found2 = (v, rest2)" by (cases found2)
        from scan_shorter(1) [of fl "skip_ws rest1" v rest2] val found2
          skip_ws_length [of rest1] rest1
        have rest2: "length rest2 < length s" by simp
        show ?thesis
        proof (cases "skip_ws rest2")
          case Nil
          with Cons Some found colon rest1 val found2 show ?thesis
            by (subst scan_members.simps) simp
        next
          case sep: (Cons d rest3)
          from skip_ws_Cons [OF sep] rest2 have "length rest3 < length s" by simp
          with Cons Some found colon rest1 val found2 sep show ?thesis
            by (subst scan_members.simps) simp
        qed
      qed
    qed
  qed
qed

subsection \<open>JSON documents and the decoder's grammar\<close>

text \<open>
  The three constants are no number literals, so the decoder reads every value
  of the RFC grammar as the grammar does, and what it rejects is no JSON document.
\<close>

lemma constants_are_no_numbers:
  "take 3 s = ''NaN'' \<Longrightarrow> lex_number s = None"
  "take 8 s = ''Infinity'' \<Longrightarrow> lex_number s = None"
  "take 9 s = ''-Infinity'' \<Longrightarrow> lex_number s = None"
  by (cases s; cases "tl s";
      auto simp: lex_number_def lex_integer_def is_digit_def split: if_splits)+

lemma rfc_within_decoder:
  shows "rfc_value s = Some rest \<Longrightarrow> \<exists>v. scan_value fl s = Some (v, rest)"
    and "rfc_elements s = Some rest1 \<Longrightarrow> \<exists>vs. scan_elements fl s = Some (vs, rest1)"
    and "rfc_members s = Some rest2 \<Longrightarrow> \<exists>ms. scan_members fl s = Some (ms, rest2)"
proof (induction s and s and s arbitrary: rest and rest1 and rest2
       rule: rfc_value_rfc_elements_rfc_members.induct)
  case (1 s)
  note given = "1.prems" [unfolded rfc_value.simps [of s]]
  from given obtain c r where s: "s = c # r" by (cases s) auto
  consider (str) "c = CHR 0x22"
    | (obj) "c \<noteq> CHR 0x22" "c = CHR ''{''"
    | (arr) "c \<noteq> CHR 0x22" "c \<noteq> CHR ''{''" "c = CHR ''[''"
    | (other) "c \<noteq> CHR 0x22" "c \<noteq> CHR ''{''" "c \<noteq> CHR ''[''"
    by blast
  then show ?case
  proof cases
    case str
    with given s show ?thesis
      by (subst scan_value.simps) (auto split: option.splits)
  next
    case obj
    with given s obtain d r1 where ws: "skip_ws r = d # r1"
      by (cases "skip_ws r") auto
    show ?thesis
    proof (cases "d = CHR ''}''")
      case True
      with given s obj ws show ?thesis by (subst scan_value.simps) simp
    next
      case False
      with given s obj ws have "rfc_members (skip_ws r) = Some rest" by simp
      from "1.IH"(1) [OF s obj ws False this] obtain ms where
        "scan_members fl (skip_ws r) = Some (ms, rest)" by blast
      with s obj ws False show ?thesis by (subst scan_value.simps) simp
    qed
  next
    case arr
    with given s obtain d r1 where ws: "skip_ws r = d # r1"
      by (cases "skip_ws r") auto
    show ?thesis
    proof (cases "d = CHR '']''")
      case True
      with given s arr ws show ?thesis by (subst scan_value.simps) simp
    next
      case False
      with given s arr ws have "rfc_elements (skip_ws r) = Some rest" by simp
      from "1.IH"(2) [OF s arr ws False this] obtain vs where
        "scan_elements fl (skip_ws r) = Some (vs, rest)" by blast
      with s arr ws False show ?thesis by (subst scan_value.simps) simp
    qed
  next
    case other
    with given s have kinds:
      "(take 5 s = ''false'' \<and> rest = drop 5 s) \<or>
       (take 5 s \<noteq> ''false'' \<and> take 4 s = ''null'' \<and> rest = drop 4 s) \<or>
       (take 5 s \<noteq> ''false'' \<and> take 4 s \<noteq> ''null'' \<and> take 4 s = ''true'' \<and> rest = drop 4 s) \<or>
       (take 5 s \<noteq> ''false'' \<and> take 4 s \<noteq> ''null'' \<and> take 4 s \<noteq> ''true'' \<and>
          (\<exists>literal is_float. lex_number s = Some (literal, is_float, rest)))"
      by (auto simp del: take_Suc_Cons drop_Suc_Cons split: if_splits)
    have start: "scan_value fl s =
          (if take 4 s = ''null'' then Some (JNull, drop 4 s)
           else if take 4 s = ''true'' then Some (JBool True, drop 4 s)
           else if take 5 s = ''false'' then Some (JBool False, drop 5 s)
           else if take 3 s = ''NaN'' then Some (JFloat NaN, drop 3 s)
           else if take 8 s = ''Infinity'' then Some (JFloat (Infinity False), drop 8 s)
           else if take 9 s = ''-Infinity'' then Some (JFloat (Infinity True), drop 9 s)
           else
             (case lex_number s of
                None \<Rightarrow> None
              | Some (literal, is_float, rest) \<Rightarrow>
                  if is_float then Some (JFloat (fl literal), rest)
                  else Some (JInt (int_of_literal literal), rest)))"
      using s other by (subst scan_value.simps) (simp del: take_Suc_Cons drop_Suc_Cons)
    from kinds show ?thesis
    proof (elim disjE conjE exE)
      assume "take 5 s = ''false''" "rest = drop 5 s"
      moreover from this s have "take 4 s \<noteq> ''null''" "take 4 s \<noteq> ''true''"
        by (auto simp: take_Suc_conv_app_nth)
      ultimately show ?thesis by (simp add: start)
    next
      assume "take 4 s = ''null''" "rest = drop 4 s"
      then show ?thesis by (simp add: start)
    next
      assume "take 4 s \<noteq> ''null''" "take 4 s = ''true''" "rest = drop 4 s"
      then show ?thesis by (simp add: start)
    next
      fix literal is_float
      assume no: "take 5 s \<noteq> ''false''" "take 4 s \<noteq> ''null''" "take 4 s \<noteq> ''true''"
        and number: "lex_number s = Some (literal, is_float, rest)"
      from number constants_are_no_numbers [of s]
      have "take 3 s \<noteq> ''NaN''" "take 8 s \<noteq> ''Infinity''" "take 9 s \<noteq> ''-Infinity''"
        by auto
      with no number show ?thesis by (simp add: start)
    qed
  qed
next
  case (2 s)
  note given = "2.prems" [unfolded rfc_elements.simps [of s]]
  from given obtain rest0 where first: "rfc_value s = Some rest0"
    by (auto split: option.splits)
  from "2.IH"(1) [OF first] obtain v where v: "scan_value fl s = Some (v, rest0)" by blast
  from given first obtain d r1 where ws: "skip_ws rest0 = d # r1"
    by (cases "skip_ws rest0") auto
  show ?case
  proof (cases "d = CHR '']''")
    case True
    with given first ws v show ?thesis by (subst scan_elements_equation) simp
  next
    case False
    with given first ws have guard: "d = CHR '','' \<and> length r1 < length s"
      and run: "rfc_elements (skip_ws r1) = Some rest1"
      by (auto split: if_splits)
    from "2.IH"(2) [OF first ws False guard run] obtain vs where
      "scan_elements fl (skip_ws r1) = Some (vs, rest1)" by blast
    with v ws False guard show ?thesis by (subst scan_elements_equation) simp
  qed
next
  case (3 s)
  note given = "3.prems" [unfolded rfc_members.simps [of s]]
  from given obtain q r where s: "s = q # r" by (cases s) auto
  with given have q: "\<not> q \<noteq> CHR 0x22" by (auto split: if_splits)
  from given s q obtain key rest where key: "scan_string r = Some (key, rest)"
    by (auto split: option.splits prod.splits)
  from given s q key obtain colon r1 where ws: "skip_ws rest = colon # r1"
    by (cases "skip_ws rest") auto
  from given s q key ws obtain r2 where guard: "colon = CHR '':'' \<and> length r1 < length s"
    and val: "rfc_value (skip_ws r1) = Some r2"
    by (auto split: option.splits if_splits)
  from "3.IH"(1) [OF s q key refl ws guard val] obtain v where
    v: "scan_value fl (skip_ws r1) = Some (v, r2)" by blast
  from given s q key ws guard val obtain d r3 where ws2: "skip_ws r2 = d # r3"
    by (cases "skip_ws r2") auto
  show ?case
  proof (cases "d = CHR ''}''")
    case True
    with given s q key ws guard val ws2 v show ?thesis
      by (subst scan_members_equation) simp
  next
    case False
    with given s q key ws guard val ws2 have guard2: "d = CHR '','' \<and> length r3 < length s"
      and run: "rfc_members (skip_ws r3) = Some rest2"
      by (auto split: if_splits)
    from "3.IH"(2) [OF s q key refl ws guard val ws2 False guard2 run] obtain ms where
      "scan_members fl (skip_ws r3) = Some (ms, rest2)" by blast
    with s q key ws guard v ws2 False guard2 show ?thesis
      by (subst scan_members_equation) simp
  qed
qed


text \<open>The comparisons of lengths in the recogniser always hold as well.\<close>

lemma rfc_value_shorter:
  assumes "rfc_value s = Some rest"
  shows "length rest < length s"
proof -
  from rfc_within_decoder(1) [OF assms, of "\<lambda>literal. NaN"] obtain v where
    "scan_value (\<lambda>literal. NaN) s = Some (v, rest)" by blast
  then show ?thesis by (rule scan_shorter(1))
qed

lemma rfc_elements_equation:
  "rfc_elements s =
     (case rfc_value s of
        None \<Rightarrow> None
      | Some rest \<Rightarrow>
          (case skip_ws rest of
             [] \<Rightarrow> None
           | d # rest1 \<Rightarrow>
               if d = CHR '']'' then Some rest1
               else if d = CHR '','' then rfc_elements (skip_ws rest1)
               else None))"
proof (cases "rfc_value s")
  case None
  then show ?thesis by (simp add: rfc_elements.simps [of s])
next
  case (Some rest)
  from rfc_value_shorter [OF Some] have shorter: "length rest < length s" .
  show ?thesis
  proof (cases "skip_ws rest")
    case Nil
    with Some show ?thesis by (simp add: rfc_elements.simps [of s])
  next
    case (Cons d rest1)
    from skip_ws_Cons [OF Cons] shorter have "length rest1 < length s" by simp
    with Some Cons show ?thesis by (simp add: rfc_elements.simps [of s])
  qed
qed

lemma rfc_members_equation:
  "rfc_members s =
     (case s of
        [] \<Rightarrow> None
      | q # r \<Rightarrow>
          if q \<noteq> CHR 0x22 then None
          else
            (case scan_string r of
               None \<Rightarrow> None
             | Some (key, rest) \<Rightarrow>
                 (case skip_ws rest of
                    [] \<Rightarrow> None
                  | colon # rest1 \<Rightarrow>
                      if colon = CHR '':'' then
                        (case rfc_value (skip_ws rest1) of
                           None \<Rightarrow> None
                         | Some rest2 \<Rightarrow>
                             (case skip_ws rest2 of
                                [] \<Rightarrow> None
                              | d # rest3 \<Rightarrow>
                                  if d = CHR ''}'' then Some rest3
                                  else if d = CHR '','' then rfc_members (skip_ws rest3)
                                  else None))
                      else None)))"
proof (cases s)
  case Nil
  then show ?thesis by (subst rfc_members.simps) simp
next
  case (Cons q r)
  show ?thesis
  proof (cases "scan_string r")
    case None
    with Cons show ?thesis by (subst rfc_members.simps) simp
  next
    case (Some found)
    obtain key rest where found: "found = (key, rest)" by (cases found)
    from scan_string_shorter [of r key rest] Some found Cons
    have rest: "length rest < length s" by simp
    show ?thesis
    proof (cases "skip_ws rest")
      case Nil
      with Cons Some found show ?thesis by (subst rfc_members.simps) simp
    next
      case colon: (Cons colon rest1)
      from skip_ws_Cons [OF colon] rest have rest1: "length rest1 < length s" by simp
      show ?thesis
      proof (cases "rfc_value (skip_ws rest1)")
        case None
        with Cons Some found colon rest1 show ?thesis by (subst rfc_members.simps) simp
      next
        case val: (Some rest2)
        from rfc_value_shorter [OF val] skip_ws_length [of rest1] rest1
        have rest2: "length rest2 < length s" by simp
        show ?thesis
        proof (cases "skip_ws rest2")
          case Nil
          with Cons Some found colon rest1 val show ?thesis by (subst rfc_members.simps) simp
        next
          case sep: (Cons d rest3)
          from skip_ws_Cons [OF sep] rest2 have "length rest3 < length s" by simp
          with Cons Some found colon rest1 val sep show ?thesis
            by (subst rfc_members.simps) simp
        qed
      qed
    qed
  qed
qed

subsection \<open>The branches of the dispatcher\<close>

lemma dispatch_not_dict:
  "py_get request ''action'' JNull = Inl e \<Longrightarrow> dispatch rt request = Inl e"
  by (simp add: dispatch_def)

lemma dispatch_metadata:
  "py_get request ''action'' JNull = Inr (JStr ''metadata'') \<Longrightarrow>
   dispatch rt request = Inr ([], JObj [(''success'', JBool True), (''metadata'', get_metadata)])"
  by (simp add: dispatch_def)

lemma dispatch_execute_hook:
  "map_of d ''action'' = Some (JStr ''execute_hook'') \<Longrightarrow>
   hook_type = (case map_of d ''hook_type'' of None \<Rightarrow> JNull | Some v \<Rightarrow> v) \<Longrightarrow>
   ctx = (case map_of d ''context'' of None \<Rightarrow> JObj [] | Some v \<Rightarrow> v) \<Longrightarrow>
   dispatch rt (JObj d) =
     (if \<not> truthy hook_type then
        Inr ([], JObj [(''success'', JBool False), (''error'', JStr ''Missing hook_type'')])
      else
        (case execute_hook rt hook_type ctx of
           Inl e \<Rightarrow> Inl e
         | Inr (printed, result) \<Rightarrow>
             Inr (printed, JObj [(''success'', JBool True), (''result'', result)])))"
  by (simp add: dispatch_def)

lemma dispatch_initialize:
  "map_of d ''action'' = Some (JStr ''initialize'') \<Longrightarrow>
   \<exists>printed. dispatch rt (JObj d) = Inr (printed, JObj [(''success'', JBool True)])"
  by (simp add: dispatch_def)

lemma dispatch_shutdown:
  "map_of d ''action'' = Some (JStr ''shutdown'') \<Longrightarrow>
   dispatch rt (JObj d) = Inr ([''[PythonPlugin] Shutdown''], JObj [(''success'', JBool True)])"
  by (simp add: dispatch_def)

lemma dispatch_unknown:
  "py_get request ''action'' JNull = Inr action \<Longrightarrow>
   action \<noteq> JStr ''metadata'' \<Longrightarrow> action \<noteq> JStr ''execute_hook'' \<Longrightarrow>
   action \<noteq> JStr ''initialize'' \<Longrightarrow> action \<noteq> JStr ''shutdown'' \<Longrightarrow>
   dispatch rt request =
     Inr ([], JObj [(''success'', JBool False),
                    (''error'', JStr (''Unknown action: '' @ py_str rt action))])"
  by (simp add: dispatch_def)

lemma handlers_lookup:
  "map_of handlers h =
     (if h = ''PreCommand'' then Some handle_pre_command
      else if h = ''PostCommand'' then Some handle_post_command
      else if h = ''PreRun'' then Some handle_pre_run
      else if h = ''PostRun'' then Some handle_post_run
      else None)"
  by (simp add: handlers_def)

lemma dispatch_response_invariant:
  assumes "dispatch rt request = Inr (printed, response)"
  shows "response_invariant response"
proof (cases "py_get request ''action'' JNull")
  case (Inl e)
  with assms show ?thesis by (simp add: dispatch_not_dict)
next
  case (Inr action)
  then obtain d where d: "request = JObj d"
    and action: "action = (case map_of d ''action'' of None \<Rightarrow> JNull | Some v \<Rightarrow> v)"
    by (cases request) auto
  consider (metadata) "action = JStr ''metadata''"
    | (execute_hook) "action = JStr ''execute_hook''"
    | (initialize) "action = JStr ''initialize''"
    | (shutdown) "action = JStr ''shutdown''"
    | (unknown) "action \<noteq> JStr ''metadata''" "action \<noteq> JStr ''execute_hook''"
        "action \<noteq> JStr ''initialize''" "action \<noteq> JStr ''shutdown''"
    by blast
  then show ?thesis
  proof cases
    case metadata
    with Inr assms have "response = JObj [(''success'', JBool True), (''metadata'', get_metadata)]"
      by (simp add: dispatch_metadata)
    then show ?thesis by simp
  next
    case execute_hook
    with action have "map_of d ''action'' = Some (JStr ''execute_hook'')"
      by (simp split: option.splits)
    from dispatch_execute_hook [OF this refl refl, of rt] assms d
    have "response = JObj [(''success'', JBool False), (''error'', JStr ''Missing hook_type'')]
        \<or> (\<exists>result. response = JObj [(''success'', JBool True), (''result'', result)])"
      by (auto split: if_splits sum.splits prod.splits)
    then show ?thesis by auto
  next
    case initialize
    with action have "map_of d ''action'' = Some (JStr ''initialize'')"
      by (simp split: option.splits)
    from dispatch_initialize [OF this, of rt] assms d
    have "response = JObj [(''success'', JBool True)]" by auto
    then show ?thesis by simp
  next
    case shutdown
    with action have "map_of d ''action'' = Some (JStr ''shutdown'')"
      by (simp split: option.splits)
    from dispatch_shutdown [OF this, of rt] assms d
    have "response = JObj [(''success'', JBool True)]" by simp
    then show ?thesis by simp
  next
    case unknown
    from dispatch_unknown [OF Inr unknown, of rt] assms
    have "response = JObj [(''success'', JBool False),
                           (''error'', JStr (''Unknown action: '' @ py_str rt action))]"
      by simp
    then show ?thesis by simp
  qed
qed

lemma handler_result_shape:
  assumes "map_of handlers h = Some handler"
    and "handler rt context = Inr (printed, result)"
  shows "\<exists>env data msg.
           result = JObj [(''modified_env'', JObj env), (''plugin_data'', JObj data),
                          (''continue_execution'', JBool True), (''message'', JStr msg)]"
  using assms
  by (auto simp: handlers_lookup handle_pre_command_def handle_post_command_def
        handle_pre_run_def handle_post_run_def split: if_splits sum.splits)

lemma execute_hook_result_shape:
  assumes "execute_hook rt hook_type context = Inr (printed, result)"
  shows "\<exists>env data msg.
           result = JObj [(''modified_env'', JObj env), (''plugin_data'', JObj data),
                          (''continue_execution'', JBool True), (''message'', msg)] \<and>
           (msg = JNull \<or> (\<exists>s. msg = JStr s))"
proof (cases "handlers_get hook_type")
  case (Inl e)
  with assms show ?thesis by (simp add: execute_hook_def)
next
  case (Inr found)
  show ?thesis
  proof (cases found)
    case None
    with Inr assms show ?thesis by (auto simp: execute_hook_def)
  next
    case (Some handler)
    with Inr assms have run: "handler rt context = Inr (printed, result)"
      by (simp add: execute_hook_def)
    from Inr Some obtain h where "hook_type = JStr h" and "map_of handlers h = Some handler"
      by (cases hook_type) auto
    from handler_result_shape [OF this(2) run] show ?thesis by blast
  qed
qed

subsection \<open>The metadata action\<close>

text \<open>
  Claim C1. A request object whose \<open>action\<close> field is \<open>"metadata"\<close> is answered with
  \<open>success = true\<close> and a \<open>metadata\<close> field that is the fixed descriptor, written
  out here field by field (id \<open>python-example\<close>, version \<open>1.0.0\<close>, the four hooks and
  the rest), whatever the other fields of the request are; nothing is printed and
  the exit status is 0.
\<close>

theorem metadata_response:
  "map_of d ''action'' = Some (JStr ''metadata'') \<Longrightarrow>
   main rt (Inr (JObj d)) =
     \<lparr>stdout =
        [JObj
          [(''success'', JBool True),
           (''metadata'',
            JObj
             [(''id'', JStr ''python-example''),
              (''name'', JStr ''Python Example Plugin''),
              (''version'', JStr ''1.0.0''),
              (''description'', JStr (''Python '' @
                 [CHR 0xE5, CHR 0xA4, CHR 0x96, CHR 0xE9, CHR 0x83, CHR 0xA8,
                  CHR 0xE6, CHR 0x8F, CHR 0x92, CHR 0xE4, CHR 0xBB, CHR 0xB6,
                  CHR 0xE7, CHR 0xA4, CHR 0xBA, CHR 0xE4, CHR 0xBE, CHR 0x8B])),
              (''author'', JStr ''EnvCLI Team''),
              (''plugin_type'', JStr ''ExternalExecutable''),
              (''hooks'', JList [JStr ''PreCommand'', JStr ''PostCommand'',
                                 JStr ''PreRun'', JStr ''PostRun'']),
              (''extensions'', JList []),
              (''config_schema'', JNull),
              (''enabled'', JBool True),
              (''dependencies'', JList []),
              (''platforms'', JList [JStr ''Windows'', JStr ''Linux'', JStr ''MacOS'']),
              (''envcli_version'', JNull)])]],
      stderr = [], exit_status = 0\<rparr>"
  by (simp add: main_def try_block_def dispatch_metadata get_metadata_def)

theorem metadata_response_witness:
  "map_of [(''hook_type'', JInt 7), (''action'', JStr ''metadata''), (''context'', JNull)] ''action''
     = Some (JStr ''metadata'') \<and>
   main example_runtime
     (Inr (JObj [(''hook_type'', JInt 7), (''action'', JStr ''metadata''), (''context'', JNull)])) =
     \<lparr>stdout =
        [JObj
          [(''success'', JBool True),
           (''metadata'',
            JObj
             [(''id'', JStr ''python-example''),
              (''name'', JStr ''Python Example Plugin''),
              (''version'', JStr ''1.0.0''),
              (''description'', JStr (''Python '' @
                 [CHR 0xE5, CHR 0xA4, CHR 0x96, CHR 0xE9, CHR 0x83, CHR 0xA8,
                  CHR 0xE6, CHR 0x8F, CHR 0x92, CHR 0xE4, CHR 0xBB, CHR 0xB6,
                  CHR 0xE7, CHR 0xA4, CHR 0xBA, CHR 0xE4, CHR 0xBE, CHR 0x8B])),
              (''author'', JStr ''EnvCLI Team''),
              (''plugin_type'', JStr ''ExternalExecutable''),
              (''hooks'', JList [JStr ''PreCommand'', JStr ''PostCommand'',
                                 JStr ''PreRun'', JStr ''PostRun'']),
              (''extensions'', JList []),
              (''config_schema'', JNull),
              (''enabled'', JBool True),
              (''dependencies'', JList []),
              (''platforms'', JList [JStr ''Windows'', JStr ''Linux'', JStr ''MacOS'']),
              (''envcli_version'', JNull)])]],
      stderr = [], exit_status = 0\<rparr>"
proof -
  have h: "map_of [(''hook_type'', JInt 7), (''action'', JStr ''metadata''), (''context'', JNull)]
             ''action'' = Some (JStr ''metadata'')"
    by simp
  show ?thesis using h metadata_response [OF h, of example_runtime] by simp
qed

subsection \<open>The response invariant\<close>

text \<open>
  Claim C2. Whatever \<open>json.load\<close> returned or raised, the program writes exactly one
  response, and that response satisfies the invariant: \<open>success\<close> is false if and only
  if an \<open>error\<close> field is present, and at most one of \<open>metadata\<close> and \<open>result\<close> is
  present. The response of the exception path is included.
\<close>

theorem response_invariant_main:
  "\<exists>r. stdout (main rt loaded) = [r] \<and> response_invariant r"
proof (cases "try_block rt loaded")
  case (Inl e)
  then show ?thesis by (simp add: main_def)
next
  case (Inr pr)
  obtain printed response where pr: "pr = (printed, response)" by (cases pr)
  with Inr have tb: "try_block rt loaded = Inr (printed, response)" by simp
  then obtain request where "loaded = Inr request"
    and "dispatch rt request = Inr (printed, response)"
    by (cases loaded) (auto simp: try_block_def)
  then have "response_invariant response" using dispatch_response_invariant by blast
  with tb show ?thesis by (simp add: main_def)
qed

theorem response_invariant_main_witness:
  "stdout (main example_runtime (Inr (JObj [(''action'', JStr ''shutdown'')]))) =
     [JObj [(''success'', JBool True)]] \<and>
   response_invariant (JObj [(''success'', JBool True)])"
proof -
  have run: "stdout (main example_runtime (Inr (JObj [(''action'', JStr ''shutdown'')]))) =
               [JObj [(''success'', JBool True)]]"
    by (simp add: main_def try_block_def dispatch_def)
  from response_invariant_main [of example_runtime "Inr (JObj [(''action'', JStr ''shutdown'')])"]
  obtain r where "stdout (main example_runtime (Inr (JObj [(''action'', JStr ''shutdown'')]))) = [r]"
    and "response_invariant r"
    by blast
  with run show ?thesis by simp
qed

subsection \<open>A hook request without a usable hook type\<close>

text \<open>
  Claim C3. A request object with \<open>action = "execute_hook"\<close> and no \<open>hook_type\<close> field is
  answered with exactly \<open>{success: false, error: "Missing hook_type"}\<close>, and the process
  ends with exit status 0.
\<close>

theorem missing_hook_type:
  "map_of d ''action'' = Some (JStr ''execute_hook'') \<Longrightarrow>
   map_of d ''hook_type'' = None \<Longrightarrow>
   main rt (Inr (JObj d)) =
     \<lparr>stdout = [JObj [(''success'', JBool False), (''error'', JStr ''Missing hook_type'')]],
      stderr = [], exit_status = 0\<rparr>"
  by (simp add: main_def try_block_def dispatch_execute_hook [OF _ refl refl])

theorem missing_hook_type_witness:
  "map_of [(''action'', JStr ''execute_hook''), (''context'', JObj [])] ''action''
     = Some (JStr ''execute_hook'') \<and>
   map_of [(''action'', JStr ''execute_hook''), (''context'', JObj [])] ''hook_type'' = None \<and>
   main example_runtime (Inr (JObj [(''action'', JStr ''execute_hook''), (''context'', JObj [])])) =
     \<lparr>stdout = [JObj [(''success'', JBool False), (''error'', JStr ''Missing hook_type'')]],
      stderr = [], exit_status = 0\<rparr>"
proof -
  have a: "map_of [(''action'', JStr ''execute_hook''), (''context'', JObj [])] ''action''
             = Some (JStr ''execute_hook'')"
    by simp
  have b: "map_of [(''action'', JStr ''execute_hook''), (''context'', JObj [])] ''hook_type'' = None"
    by simp
  show ?thesis using a b missing_hook_type [OF a b, of example_runtime] by simp
qed

text \<open>
  Claim C9. A request object with \<open>action = "execute_hook"\<close> whose \<open>hook_type\<close> is
  present but falsy (the empty string, \<open>null\<close>, \<open>false\<close>, a zero, an empty list or
  object) gets the answer of a request without \<open>hook_type\<close>: the registry is not asked.
\<close>

theorem falsy_hook_type:
  "map_of d ''action'' = Some (JStr ''execute_hook'') \<Longrightarrow>
   map_of d ''hook_type'' = Some v \<Longrightarrow>
   \<not> truthy v \<Longrightarrow>
   main rt (Inr (JObj d)) =
     \<lparr>stdout = [JObj [(''success'', JBool False), (''error'', JStr ''Missing hook_type'')]],
      stderr = [], exit_status = 0\<rparr>"
  by (simp add: main_def try_block_def dispatch_execute_hook [OF _ refl refl])

theorem falsy_hook_type_witness:
  "map_of [(''action'', JStr ''execute_hook''), (''hook_type'', JStr '''')] ''action''
     = Some (JStr ''execute_hook'') \<and>
   map_of [(''action'', JStr ''execute_hook''), (''hook_type'', JStr '''')] ''hook_type''
     = Some (JStr '''') \<and>
   \<not> truthy (JStr '''') \<and>
   main example_runtime (Inr (JObj [(''action'', JStr ''execute_hook''), (''hook_type'', JStr '''')])) =
     \<lparr>stdout = [JObj [(''success'', JBool False), (''error'', JStr ''Missing hook_type'')]],
      stderr = [], exit_status = 0\<rparr>"
proof -
  have a: "map_of [(''action'', JStr ''execute_hook''), (''hook_type'', JStr '''')] ''action''
             = Some (JStr ''execute_hook'')"
    by simp
  have b: "map_of [(''action'', JStr ''execute_hook''), (''hook_type'', JStr '''')] ''hook_type''
             = Some (JStr '''')"
    by simp
  have c: "\<not> truthy (JStr '''')" by simp
  show ?thesis using a b c falsy_hook_type [OF a b c, of example_runtime] by simp
qed

subsection \<open>Hook types outside the registry\<close>

text \<open>
  Claim C4, as stated, asks the neutral default result for every \<open>hook_type\<close> string
  that is not one of the four registered names. The empty string is such a string, and
  the guard \<open>if not hook_type\<close> answers it with the error response.
\<close>

theorem empty_hook_type_counterexample:
  "'''' \<notin> {''PreCommand'', ''PostCommand'', ''PreRun'', ''PostRun''} \<and>
   main example_runtime (Inr (JObj [(''action'', JStr ''execute_hook''), (''hook_type'', JStr '''')])) =
     \<lparr>stdout = [JObj [(''success'', JBool False), (''error'', JStr ''Missing hook_type'')]],
      stderr = [], exit_status = 0\<rparr> \<and>
   main example_runtime (Inr (JObj [(''action'', JStr ''execute_hook''), (''hook_type'', JStr '''')])) \<noteq>
     \<lparr>stdout = [JObj [(''success'', JBool True),
                      (''result'', JObj [(''modified_env'', JObj []),
                                         (''plugin_data'', JObj []),
                                         (''continue_execution'', JBool True),
                                         (''message'', JNull)])]],
      stderr = [], exit_status = 0\<rparr>"
  by (simp add: main_def try_block_def dispatch_def)

text \<open>
  Claim C4, amended. A request object with \<open>action = "execute_hook"\<close> and a \<open>hook_type\<close>
  that is a non-empty string other than the four registered names is answered with
  \<open>success = true\<close> and the neutral default result: empty \<open>modified_env\<close> and
  \<open>plugin_data\<close>, \<open>continue_execution = true\<close>, \<open>message = null\<close>. The \<open>context\<close>
  field is not looked into, nothing is printed, and the exit status is 0.
\<close>

theorem unknown_hook_default:
  "map_of d ''action'' = Some (JStr ''execute_hook'') \<Longrightarrow>
   map_of d ''hook_type'' = Some (JStr h) \<Longrightarrow>
   h \<noteq> [] \<Longrightarrow>
   h \<notin> {''PreCommand'', ''PostCommand'', ''PreRun'', ''PostRun''} \<Longrightarrow>
   main rt (Inr (JObj d)) =
     \<lparr>stdout = [JObj [(''success'', JBool True),
                      (''result'', JObj [(''modified_env'', JObj []),
                                         (''plugin_data'', JObj []),
                                         (''continue_execution'', JBool True),
                                         (''message'', JNull)])]],
      stderr = [], exit_status = 0\<rparr>"
  by (simp add: main_def try_block_def dispatch_execute_hook [OF _ refl refl]
        execute_hook_def handlers_lookup)

theorem unknown_hook_default_witness:
  "map_of [(''action'', JStr ''execute_hook''), (''hook_type'', JStr ''TotallyUnknownHook''),
           (''context'', JInt 3)] ''action'' = Some (JStr ''execute_hook'') \<and>
   map_of [(''action'', JStr ''execute_hook''), (''hook_type'', JStr ''TotallyUnknownHook''),
           (''context'', JInt 3)] ''hook_type'' = Some (JStr ''TotallyUnknownHook'') \<and>
   ''TotallyUnknownHook'' \<noteq> [] \<and>
   ''TotallyUnknownHook'' \<notin> {''PreCommand'', ''PostCommand'', ''PreRun'', ''PostRun''} \<and>
   main example_runtime
     (Inr (JObj [(''action'', JStr ''execute_hook''), (''hook_type'', JStr ''TotallyUnknownHook''),
                 (''context'', JInt 3)])) =
     \<lparr>stdout = [JObj [(''success'', JBool True),
                      (''result'', JObj [(''modified_env'', JObj []),
                                         (''plugin_data'', JObj []),
                                         (''continue_execution'', JBool True),
                                         (''message'', JNull)])]],
      stderr = [], exit_status = 0\<rparr>"
proof -
  have a: "map_of [(''action'', JStr ''execute_hook''), (''hook_type'', JStr ''TotallyUnknownHook''),
                   (''context'', JInt 3)] ''action'' = Some (JStr ''execute_hook'')"
    by simp
  have b: "map_of [(''action'', JStr ''execute_hook''), (''hook_type'', JStr ''TotallyUnknownHook''),
                   (''context'', JInt 3)] ''hook_type'' = Some (JStr ''TotallyUnknownHook'')"
    by simp
  have c: "''TotallyUnknownHook'' \<noteq> []" by simp
  have e: "''TotallyUnknownHook'' \<notin> {''PreCommand'', ''PostCommand'', ''PreRun'', ''PostRun''}"
    by simp
  show ?thesis using a b c e unknown_hook_default [OF a b c e, of example_runtime] by simp
qed

subsection \<open>Hook types in the registry\<close>

text \<open>
  Claim C5. A request object with \<open>action = "execute_hook"\<close>, a \<open>hook_type\<close> among
  \<open>PreCommand\<close>, \<open>PostCommand\<close>, \<open>PreRun\<close>, \<open>PostRun\<close>, and a \<open>context\<close> that is a
  mapping (given, or the empty one the program takes when the field is absent) is
  answered with \<open>success = true\<close> and a result whose \<open>continue_execution\<close> is true; the
  exit status is 0.
\<close>

theorem known_hook_continues:
  assumes "map_of d ''action'' = Some (JStr ''execute_hook'')"
    and "map_of d ''hook_type'' = Some (JStr h)"
    and "h \<in> {''PreCommand'', ''PostCommand'', ''PreRun'', ''PostRun''}"
    and "py_get (JObj d) ''context'' (JObj []) = Inr (JObj c)"
  shows "\<exists>printed fields.
           main rt (Inr (JObj d)) =
             \<lparr>stdout = [JObj [(''success'', JBool True), (''result'', JObj fields)]],
              stderr = printed, exit_status = 0\<rparr> \<and>
           map_of fields ''continue_execution'' = Some (JBool True)"
proof -
  define request_context where
    "request_context = (case map_of d ''context'' of None \<Rightarrow> JObj [] | Some v \<Rightarrow> v)"
  with assms(4) have mapping: "request_context = JObj c" by simp
  have nonempty: "truthy (JStr h)" using assms(3) by auto
  from assms(3) obtain handler where found: "map_of handlers h = Some handler"
    by (auto simp: handlers_lookup)
  from assms(3) found obtain printed result where
    run: "handler rt (JObj c) = Inr (printed, result)"
    by (auto simp: handlers_lookup handle_pre_command_def handle_post_command_def
          handle_pre_run_def handle_post_run_def split: if_splits)
  from handler_result_shape [OF found run] obtain fields where
    fields: "result = JObj fields" "map_of fields ''continue_execution'' = Some (JBool True)"
    by auto
  have "dispatch rt (JObj d) =
          Inr (printed, JObj [(''success'', JBool True), (''result'', JObj fields)])"
    using dispatch_execute_hook [OF assms(1) refl request_context_def, of rt]
      assms(2) nonempty mapping found run fields(1)
    by (simp add: execute_hook_def)
  then have "main rt (Inr (JObj d)) =
          \<lparr>stdout = [JObj [(''success'', JBool True), (''result'', JObj fields)]],
           stderr = printed, exit_status = 0\<rparr>"
    by (simp add: main_def try_block_def)
  with fields(2) show ?thesis by blast
qed

theorem known_hook_continues_witness:
  "map_of [(''action'', JStr ''execute_hook''), (''hook_type'', JStr ''PostRun''),
           (''context'', JObj [(''command'', JStr ''ls'')])] ''action'' = Some (JStr ''execute_hook'') \<and>
   map_of [(''action'', JStr ''execute_hook''), (''hook_type'', JStr ''PostRun''),
           (''context'', JObj [(''command'', JStr ''ls'')])] ''hook_type'' = Some (JStr ''PostRun'') \<and>
   ''PostRun'' \<in> {''PreCommand'', ''PostCommand'', ''PreRun'', ''PostRun''} \<and>
   py_get (JObj [(''action'', JStr ''execute_hook''), (''hook_type'', JStr ''PostRun''),
                 (''context'', JObj [(''command'', JStr ''ls'')])]) ''context'' (JObj [])
     = Inr (JObj [(''command'', JStr ''ls'')]) \<and>
   (\<exists>printed fields.
      main example_runtime
        (Inr (JObj [(''action'', JStr ''execute_hook''), (''hook_type'', JStr ''PostRun''),
                    (''context'', JObj [(''command'', JStr ''ls'')])])) =
        \<lparr>stdout = [JObj [(''success'', JBool True), (''result'', JObj fields)]],
         stderr = printed, exit_status = 0\<rparr> \<and>
      map_of fields ''continue_execution'' = Some (JBool True))"
proof -
  have a: "map_of [(''action'', JStr ''execute_hook''), (''hook_type'', JStr ''PostRun''),
                   (''context'', JObj [(''command'', JStr ''ls'')])] ''action''
             = Some (JStr ''execute_hook'')"
    by simp
  have b: "map_of [(''action'', JStr ''execute_hook''), (''hook_type'', JStr ''PostRun''),
                   (''context'', JObj [(''command'', JStr ''ls'')])] ''hook_type''
             = Some (JStr ''PostRun'')"
    by simp
  have c: "''PostRun'' \<in> {''PreCommand'', ''PostCommand'', ''PreRun'', ''PostRun''}"
    by simp
  have e: "py_get (JObj [(''action'', JStr ''execute_hook''), (''hook_type'', JStr ''PostRun''),
                         (''context'', JObj [(''command'', JStr ''ls'')])]) ''context'' (JObj [])
             = Inr (JObj [(''command'', JStr ''ls'')])"
    by simp
  from known_hook_continues [OF a b c e, of example_runtime] a b c e
  show ?thesis by blast
qed

text \<open>
  Claim C8. When a request object with \<open>action = "execute_hook"\<close> is answered with
  \<open>success = true\<close>, the \<open>result\<close> of the response has the four fields
  \<open>modified_env\<close>, \<open>plugin_data\<close>, \<open>continue_execution\<close> and \<open>message\<close>: the first two
  are mappings (possibly empty), the third is a boolean, and the last is a string or
  \<open>null\<close>. This holds for registered and unregistered hook types alike.
\<close>

theorem hook_result_fully_populated:
  assumes "map_of d ''action'' = Some (JStr ''execute_hook'')"
    and "stdout (main rt (Inr (JObj d))) = [JObj response]"
    and "map_of response ''success'' = Some (JBool True)"
  shows "\<exists>env data msg.
           map_of response ''result'' =
             Some (JObj [(''modified_env'', JObj env), (''plugin_data'', JObj data),
                         (''continue_execution'', JBool True), (''message'', msg)]) \<and>
           (msg = JNull \<or> (\<exists>s. msg = JStr s))"
proof (cases "dispatch rt (JObj d)")
  case (Inl e)
  with assms(2,3) show ?thesis by (auto simp: main_def try_block_def)
next
  case (Inr pr)
  obtain printed resp where pr: "pr = (printed, resp)" by (cases pr)
  with Inr assms(2) have resp: "resp = JObj response" by (simp add: main_def try_block_def)
  define hook_type where
    "hook_type = (case map_of d ''hook_type'' of None \<Rightarrow> JNull | Some v \<Rightarrow> v)"
  define request_context where
    "request_context = (case map_of d ''context'' of None \<Rightarrow> JObj [] | Some v \<Rightarrow> v)"
  from dispatch_execute_hook [OF assms(1) hook_type_def request_context_def, of rt]
    Inr pr resp assms(3)
  obtain result where
    run: "execute_hook rt hook_type request_context = Inr (printed, result)"
    and response: "response = [(''success'', JBool True), (''result'', result)]"
    by (auto split: if_splits sum.splits prod.splits)
  from execute_hook_result_shape [OF run] response show ?thesis by auto
qed

theorem hook_result_fully_populated_witness:
  "map_of [(''action'', JStr ''execute_hook''), (''hook_type'', JStr ''PostCommand'')] ''action''
     = Some (JStr ''execute_hook'') \<and>
   stdout (main example_runtime
             (Inr (JObj [(''action'', JStr ''execute_hook''), (''hook_type'', JStr ''PostCommand'')]))) =
     [JObj [(''success'', JBool True),
            (''result'', JObj [(''modified_env'', JObj []),
               (''plugin_data'', JObj [(''python_executed'', JStr ''true''),
                                       (''timestamp'', JStr ''1700000000.25'')]),
               (''continue_execution'', JBool True),
               (''message'', JStr ''Python plugin processed post-command: unknown'')])]] \<and>
   map_of [(''success'', JBool True),
           (''result'', JObj [(''modified_env'', JObj []),
              (''plugin_data'', JObj [(''python_executed'', JStr ''true''),
                                      (''timestamp'', JStr ''1700000000.25'')]),
              (''continue_execution'', JBool True),
              (''message'', JStr ''Python plugin processed post-command: unknown'')])] ''success''
     = Some (JBool True) \<and>
   (\<exists>env data msg.
      map_of [(''success'', JBool True),
              (''result'', JObj [(''modified_env'', JObj []),
                 (''plugin_data'', JObj [(''python_executed'', JStr ''true''),
                                         (''timestamp'', JStr ''1700000000.25'')]),
                 (''continue_execution'', JBool True),
                 (''message'', JStr ''Python plugin processed post-command: unknown'')])] ''result'' =
        Some (JObj [(''modified_env'', JObj env), (''plugin_data'', JObj data),
                    (''continue_execution'', JBool True), (''message'', msg)]) \<and>
      (msg = JNull \<or> (\<exists>s. msg = JStr s)))"
proof -
  have a: "map_of [(''action'', JStr ''execute_hook''), (''hook_type'', JStr ''PostCommand'')] ''action''
             = Some (JStr ''execute_hook'')"
    by simp
  have b: "stdout (main example_runtime
             (Inr (JObj [(''action'', JStr ''execute_hook''), (''hook_type'', JStr ''PostCommand'')]))) =
     [JObj [(''success'', JBool True),
            (''result'', JObj [(''modified_env'', JObj []),
               (''plugin_data'', JObj [(''python_executed'', JStr ''true''),
                                       (''timestamp'', JStr ''1700000000.25'')]),
               (''continue_execution'', JBool True),
               (''message'', JStr ''Python plugin processed post-command: unknown'')])]]"
    by (simp add: main_def try_block_def dispatch_def execute_hook_def handlers_def
          handle_post_command_def example_runtime_def)
  have c: "map_of [(''success'', JBool True),
           (''result'', JObj [(''modified_env'', JObj []),
              (''plugin_data'', JObj [(''python_executed'', JStr ''true''),
                                      (''timestamp'', JStr ''1700000000.25'')]),
              (''continue_execution'', JBool True),
              (''message'', JStr ''Python plugin processed post-command: unknown'')])] ''success''
     = Some (JBool True)"
    by simp
  from hook_result_fully_populated [OF a b c] a b c show ?thesis by blast
qed

subsection \<open>Actions outside the protocol\<close>

text \<open>
  Claim C6. Let \<open>action\<close> be what \<open>request.get("action")\<close> returns for a request object:
  the field, or \<open>None\<close> when the field is missing. When it is none of \<open>"metadata"\<close>,
  \<open>"execute_hook"\<close>, \<open>"initialize"\<close>, \<open>"shutdown"\<close>, the response is exactly
  \<open>{success: false, error: "Unknown action: <value>"}\<close> with the text of \<open>action\<close> in place
  of \<open><value>\<close>, nothing is printed, and the exit status is 0. No value of \<open>action\<close>
  makes the exit status other than 0 by itself: a request object that has the
  \<open>action\<close> field only ends with status 0, whatever the value of the field.
\<close>

theorem unknown_action_response:
  assumes "py_get (JObj d) ''action'' JNull = Inr action"
    and "action \<notin> {JStr ''metadata'', JStr ''execute_hook'', JStr ''initialize'', JStr ''shutdown''}"
  shows "main rt (Inr (JObj d)) =
           \<lparr>stdout = [JObj [(''success'', JBool False),
                            (''error'', JStr (''Unknown action: '' @ py_str rt action))]],
            stderr = [], exit_status = 0\<rparr> \<and>
         exit_status (main rt (Inr (JObj [(''action'', any_action)]))) = 0"
proof -
  from assms(2) have "action \<noteq> JStr ''metadata''" "action \<noteq> JStr ''execute_hook''"
    "action \<noteq> JStr ''initialize''" "action \<noteq> JStr ''shutdown''"
    by auto
  from dispatch_unknown [OF assms(1) this]
  have unknown: "main rt (Inr (JObj d)) =
           \<lparr>stdout = [JObj [(''success'', JBool False),
                            (''error'', JStr (''Unknown action: '' @ py_str rt action))]],
            stderr = [], exit_status = 0\<rparr>"
    by (simp add: main_def try_block_def)
  have "exit_status (main rt (Inr (JObj [(''action'', any_action)]))) = 0"
    by (simp add: main_def try_block_def dispatch_def)
  with unknown show ?thesis by simp
qed

theorem unknown_action_response_witness:
  "py_get (JObj [(''action'', JStr ''bogus_action'')]) ''action'' JNull = Inr (JStr ''bogus_action'') \<and>
   JStr ''bogus_action'' \<notin>
     {JStr ''metadata'', JStr ''execute_hook'', JStr ''initialize'', JStr ''shutdown''} \<and>
   main example_runtime (Inr (JObj [(''action'', JStr ''bogus_action'')])) =
     \<lparr>stdout = [JObj [(''success'', JBool False),
                      (''error'', JStr ''Unknown action: bogus_action'')]],
      stderr = [], exit_status = 0\<rparr> \<and>
   py_get (JObj [(''hook_type'', JStr ''PreRun'')]) ''action'' JNull = Inr JNull \<and>
   JNull \<notin> {JStr ''metadata'', JStr ''execute_hook'', JStr ''initialize'', JStr ''shutdown''} \<and>
   main example_runtime (Inr (JObj [(''hook_type'', JStr ''PreRun'')])) =
     \<lparr>stdout = [JObj [(''success'', JBool False), (''error'', JStr ''Unknown action: None'')]],
      stderr = [], exit_status = 0\<rparr> \<and>
   exit_status (main example_runtime (Inr (JObj [(''action'', JStr ''execute_hook'')]))) = 0"
proof -
  have a: "py_get (JObj [(''action'', JStr ''bogus_action'')]) ''action'' JNull
             = Inr (JStr ''bogus_action'')"
    by simp
  have b: "JStr ''bogus_action'' \<notin>
             {JStr ''metadata'', JStr ''execute_hook'', JStr ''initialize'', JStr ''shutdown''}"
    by simp
  have c: "py_get (JObj [(''hook_type'', JStr ''PreRun'')]) ''action'' JNull = Inr JNull"
    by simp
  have e: "JNull \<notin> {JStr ''metadata'', JStr ''execute_hook'', JStr ''initialize'', JStr ''shutdown''}"
    by simp
  show ?thesis
    using a b c e unknown_action_response [OF a b, of example_runtime "JStr ''execute_hook''"]
      unknown_action_response [OF c e, of example_runtime "JStr ''execute_hook''"]
    by simp
qed

subsection \<open>The exception path\<close>

text \<open>
  On a platform whose output stream accepts every write, the process does what
  \<open>main\<close> does with the result of \<open>json.load\<close>.
\<close>

lemma process_when_writes_succeed:
  assumes "\<And>document. dump_raises pf document = None"
  shows "process pf rt text =
           \<lparr>delivered = map Whole (stdout (main rt (json_load pf text))),
            diagnostics = stderr (main rt (json_load pf text)),
            ending = Exited (exit_status (main rt (json_load pf text)))\<rparr>"
  by (cases "try_block rt (json_load pf text)")
     (auto simp: process_def except_clause_def Let_def main_def assms)




subsection \<open>The advertised hooks and the registry\<close>

text \<open>
  Claim C10. The \<open>hooks\<close> field of the metadata descriptor lists exactly the keys of
  the handler mapping of \<open>execute_hook\<close>: \<open>PreCommand\<close>, \<open>PostCommand\<close>, \<open>PreRun\<close> and
  \<open>PostRun\<close>.
\<close>

theorem advertised_hooks_registered:
  "py_get get_metadata ''hooks'' JNull = Inr (JList (map JStr (map fst handlers))) \<and>
   set (map fst handlers) = {''PreCommand'', ''PostCommand'', ''PreRun'', ''PostRun''} \<and>
   dom (map_of handlers) = {''PreCommand'', ''PostCommand'', ''PreRun'', ''PostRun''}"
  by (auto simp: get_metadata_def handlers_def)

end
